theory Spec2Isabelle
  imports Main "HOL-Library.Multiset" "HOL-Library.Char_ord" "HOL-Library.List_Lexorder"
begin

section \<open>Data model\<close>

text \<open>
  Modelled from the spec: the Prisma schema is not among the sources. The records carry
  the fields that \<^verbatim>\<open>src/routes/files.js\<close> and \<^verbatim>\<open>src/config/passport.js\<close> read and
  write; the key types follow the use the routes make of them: file keys are integers
  (a file is looked up by \<^verbatim>\<open>Number(req.params.id)\<close>), folder keys are strings (the
  routes hand \<^verbatim>\<open>req.body.folderId\<close> to the store as it arrives), user keys are
  integers, and the upload time is a number of milliseconds.
\<close>

type_synonym file_key = int
type_synonym folder_key = string
type_synonym user_key = int

record user =
  user_id :: user_key
  user_email :: string
  user_name :: string

record file_row =
  file_id :: file_key
  filename :: string
  originalName :: string
  mimeType :: string
  file_size :: nat
  path :: string
  description :: "string option"
  isPublic :: bool
  userId :: user_key
  folderId :: "folder_key option"
  uploadedAt :: int

record folder =
  folder_id :: folder_key
  folder_name :: string
  folder_userId :: user_key
  parentId :: "folder_key option"

text \<open>\<^verbatim>\<open>req.file\<close> as multer leaves it for the upload handler.\<close>

record multer_file =
  mf_filename :: string
  mf_originalname :: string
  mf_mimetype :: string
  mf_size :: nat
  mf_path :: string

text \<open>
  The server state: the two tables, the counter behind the store-assigned file key, the
  paths present in the upload directory, and the lines written by \<^verbatim>\<open>console.error\<close>.
\<close>

record state =
  files :: "file_row list"
  folders :: "folder list"
  nextFileId :: file_key
  disk :: "string list"
  logs :: "string list"

section \<open>The metadata store\<close>

text \<open>
  The two tables are lists of rows, in the order of insertion. The store fails only
  where a failure is written out below (a delete or an update of a key without a row);
  a lost connection, which would send any handler into its \<^verbatim>\<open>catch\<close>, has no
  counterpart here.

  A \<^verbatim>\<open>where\<close> argument of the store client is a tree. An object literal is the
  conjunction of its fields. The client documents \<^verbatim>\<open>undefined\<close> as "do nothing": a
  field whose value is \<^verbatim>\<open>undefined\<close> is left out of the query, so an object with no
  other field constrains nothing. An \<^verbatim>\<open>OR\<close> looks only at the members that still
  constrain something; with one such member it is that member, with none it matches no
  row. This is what decides the lookup of an anonymous request, whose
  \<^verbatim>\<open>req.user?.id\<close> is \<^verbatim>\<open>undefined\<close>.
\<close>

datatype 'r where_clause =
    Field "'r \<Rightarrow> bool"
  | Undefined
  | Obj "'r where_clause list"
  | OR "'r where_clause list"

definition equals :: "('r \<Rightarrow> 'a) \<Rightarrow> 'a option \<Rightarrow> 'r where_clause" where
  "equals get v = (case v of None \<Rightarrow> Undefined | Some x \<Rightarrow> Field (\<lambda>r. get r = x))"

fun present :: "'r where_clause \<Rightarrow> bool" where
  "present (Field p) = True"
| "present Undefined = False"
| "present (Obj cs) = list_ex present cs"
| "present (OR cs) = True"

fun matches :: "'r where_clause \<Rightarrow> 'r \<Rightarrow> bool" where
  "matches (Field p) r = p r"
| "matches Undefined r = True"
| "matches (Obj cs) r = list_all (\<lambda>c. matches c r) cs"
| "matches (OR cs) r = list_ex (\<lambda>c. present c \<and> matches c r) cs"

text \<open>\<open>findMany\<close> takes the key of its \<^verbatim>\<open>orderBy\<close>; descending order is ascending order
  of the negated key. Names are ordered as lists of characters.\<close>

definition findFirst :: "'r where_clause \<Rightarrow> 'r list \<Rightarrow> 'r option" where
  "findFirst w rows = find (matches w) rows"

definition findMany :: "'r where_clause \<Rightarrow> ('r \<Rightarrow> 'k::linorder) \<Rightarrow> 'r list \<Rightarrow> 'r list" where
  "findMany w orderBy rows = sort_key orderBy (filter (matches w) rows)"

datatype store_error = RecordNotFound

text \<open>\<^verbatim>\<open>prisma.file.delete\<close> and \<^verbatim>\<open>prisma.file.update\<close> by key: both throw when no
  row has the key.\<close>

definition file_delete :: "file_key \<Rightarrow> file_row list \<Rightarrow> store_error + file_row list" where
  "file_delete k rows =
     (if list_ex (\<lambda>f. file_id f = k) rows
      then Inr (filter (\<lambda>f. file_id f \<noteq> k) rows)
      else Inl RecordNotFound)"

definition file_update :: "file_key \<Rightarrow> (file_row \<Rightarrow> file_row) \<Rightarrow> file_row list \<Rightarrow> store_error + file_row list" where
  "file_update k upd rows =
     (if list_ex (\<lambda>f. file_id f = k) rows
      then Inr (map (\<lambda>f. if file_id f = k then upd f else f) rows)
      else Inl RecordNotFound)"

text \<open>Modelled from the spec: the schema that assigns the key and the creation timestamp
  of a new File row is not among the sources; the key is store-assigned and unique (a
  counter), the timestamp is the time of creation.\<close>

definition file_create :: "file_row \<Rightarrow> int \<Rightarrow> state \<Rightarrow> state" where
  "file_create row now st =
     st\<lparr>files := files st @ [row\<lparr>file_id := nextFileId st, uploadedAt := now\<rparr>],
        nextFileId := nextFileId st + 1\<rparr>"

section \<open>The blob store\<close>

text \<open>The upload directory is the list of the paths in it. \<^verbatim>\<open>fs.unlink\<close> removes a
  path, and fails when the path is not there.\<close>

datatype fs_error = ENOENT

definition unlink :: "string \<Rightarrow> string list \<Rightarrow> fs_error + string list" where
  "unlink p d = (if p \<in> set d then Inr (removeAll p d) else Inl ENOENT)"

section \<open>Responses\<close>

datatype flash = FlashError string | FlashSuccess string

datatype url = FilesUrl | UploadUrl | FileUrl file_key

datatype response =
    RenderPublic "file_row list"
  | RenderIndex "file_row list"
  | RenderInfo file_row "folder list" bool
  | Download string string
  | Render404
  | Render500
  | JsonSuccess
  | Json404
  | Json500
  | Redirect url "flash list"

definition console_error :: "string \<Rightarrow> state \<Rightarrow> state" where
  "console_error msg st = st\<lparr>logs := logs st @ [msg]\<rparr>"

text \<open>JavaScript truthiness of a form field: absent and the empty string are falsy.\<close>

definition truthy :: "string option \<Rightarrow> bool" where
  "truthy v = (case v of None \<Rightarrow> False | Some s \<Rightarrow> s \<noteq> [])"

definition or_null :: "string option \<Rightarrow> string option" where
  "or_null v = (if truthy v then v else None)"

section \<open>Route handlers\<close>

text \<open>
  Each handler of \<^verbatim>\<open>src/routes/files.js\<close> takes the state and what it reads from the
  request, and returns the new state and the response. \<^verbatim>\<open>req.user\<close> is \<open>None\<close> for an
  anonymous request. A handler that reads \<^verbatim>\<open>req.user.id\<close> without a user throws
  inside its \<^verbatim>\<open>try\<close>, and its \<^verbatim>\<open>catch\<close> answers. The middleware in front of a handler
  (\<^verbatim>\<open>ensureAuthenticated\<close>, the validators, multer) is not among the sources; what it
  leaves on the request is an input of the handler: the user, the uploaded file, the
  messages of \<^verbatim>\<open>validationResult(req)\<close>.

  The key of a file in a request is the value of \<^verbatim>\<open>Number(req.params.id)\<close>, taken to be
  an integer. The rows that \<^verbatim>\<open>include\<close> joins to a file (the names of its user and of
  its folder) are left out of the rendered values.
\<close>

definition get_public :: "state \<Rightarrow> state \<times> response" where
  "get_public st =
     (st, RenderPublic (findMany (Obj [equals isPublic (Some True)]) (\<lambda>f. - uploadedAt f) (files st)))"

definition get_index :: "state \<Rightarrow> user option \<Rightarrow> state \<times> response" where
  "get_index st u =
     (case u of
        None \<Rightarrow> (console_error ''Error fetching files:'' st, Render500)
      | Some usr \<Rightarrow>
          (st, RenderIndex (findMany (Obj [equals userId (Some (user_id usr))])
                 (\<lambda>f. - uploadedAt f) (files st))))"

record upload_request =
  up_user :: "user option"
  up_file :: "multer_file option"
  up_folderId :: "string option"
  up_description :: "string option"
  up_isPublic :: "string option"
  up_errors :: "string list"
  up_now :: int

definition type_error_message :: string where
  "type_error_message = ''Cannot read properties of undefined (reading 'id')''"

definition post_upload :: "state \<Rightarrow> upload_request \<Rightarrow> state \<times> response" where
  "post_upload st req =
     (if up_errors req \<noteq> [] then (st, Redirect UploadUrl (map FlashError (up_errors req)))
      else case up_file req of
        None \<Rightarrow> (st, Redirect UploadUrl [FlashError ''No file uploaded''])
      | Some mf \<Rightarrow>
         (case up_user req of
            None \<Rightarrow> (console_error ''Error uploading file:'' st,
                      Redirect UploadUrl [FlashError (''An error occurred: '' @ type_error_message)])
          | Some usr \<Rightarrow>
             (let folderId0 = or_null (up_folderId req);
                  folderId1 =
                    (if truthy folderId0
                     then (case findFirst (Obj [equals folder_id folderId0,
                                                equals folder_userId (Some (user_id usr))]) (folders st) of
                             None \<Rightarrow> None
                           | Some g \<Rightarrow> folderId0)
                     else folderId0);
                  row = \<lparr>file_id = 0,
                         filename = mf_filename mf,
                         originalName = mf_originalname mf,
                         mimeType = mf_mimetype mf,
                         file_size = mf_size mf,
                         path = mf_path mf,
                         description = or_null (up_description req),
                         isPublic = (up_isPublic req = Some ''true''),
                         userId = user_id usr,
                         folderId = folderId1,
                         uploadedAt = 0\<rparr>
              in (file_create row (up_now req) st,
                  Redirect FilesUrl [FlashSuccess ''File uploaded successfully!'']))))"

text \<open>The filter shared by the download and the info route:
  \<^verbatim>\<open>{ id: Number(req.params.id), OR: [{ userId: req.user?.id }, { isPublic: true }] }\<close>.\<close>

definition readable_where :: "user option \<Rightarrow> file_key \<Rightarrow> file_row where_clause" where
  "readable_where u n =
     Obj [equals file_id (Some n),
          OR [Obj [equals userId (map_option user_id u)], Obj [equals isPublic (Some True)]]]"

definition owned_where :: "user \<Rightarrow> file_key \<Rightarrow> file_row where_clause" where
  "owned_where usr n = Obj [equals file_id (Some n), equals userId (Some (user_id usr))]"

definition get_download :: "state \<Rightarrow> user option \<Rightarrow> file_key \<Rightarrow> state \<times> response" where
  "get_download st u n =
     (case findFirst (readable_where u n) (files st) of
        None \<Rightarrow> (st, Render404)
      | Some f \<Rightarrow> (st, Download (path f) (originalName f)))"

definition delete_file :: "state \<Rightarrow> user option \<Rightarrow> file_key \<Rightarrow> state \<times> response" where
  "delete_file st u n =
     (case u of
        None \<Rightarrow> (console_error ''Error deleting file:'' st, Json500)
      | Some usr \<Rightarrow>
         (case findFirst (owned_where usr n) (files st) of
            None \<Rightarrow> (st, Json404)
          | Some f \<Rightarrow>
             (let st1 = (case unlink (path f) (disk st) of
                           Inl e \<Rightarrow> console_error ''Error deleting file from filesystem:'' st
                         | Inr d \<Rightarrow> st\<lparr>disk := d\<rparr>)
              in case file_delete (file_id f) (files st1) of
                   Inl e \<Rightarrow> (console_error ''Error deleting file:'' st1, Json500)
                 | Inr rows \<Rightarrow> (st1\<lparr>files := rows\<rparr>, JsonSuccess))))"

text \<open>\<^verbatim>\<open>req.user && file.userId === req.user.id\<close>, the test of the info route for the
  owner of the file.\<close>

definition canEdit :: "user option \<Rightarrow> file_row \<Rightarrow> bool" where
  "canEdit u f = (case u of None \<Rightarrow> False | Some usr \<Rightarrow> userId f = user_id usr)"

definition get_info :: "state \<Rightarrow> user option \<Rightarrow> file_key \<Rightarrow> state \<times> response" where
  "get_info st u n =
     (case findFirst (readable_where u n) (files st) of
        None \<Rightarrow> (st, Render404)
      | Some f \<Rightarrow>
         (let fs = (if canEdit u f
                    then findMany (Obj [equals folder_userId (map_option user_id u)])
                           folder_name (folders st)
                    else [])
          in (st, RenderInfo f fs (canEdit u f))))"

text \<open>The tail of the assign-folder handler: the update and the answer after it.\<close>

definition assign_update :: "state \<Rightarrow> file_key \<Rightarrow> file_row \<Rightarrow> folder_key option \<Rightarrow> state \<times> response" where
  "assign_update st n f validatedFolderId =
     (case file_update (file_id f) (\<lambda>r. r\<lparr>folderId := validatedFolderId\<rparr>) (files st) of
        Inl e \<Rightarrow> (console_error ''Error updating file folder:'' st,
                  Redirect (FileUrl n) [FlashError ''Unable to move file''])
      | Inr rows \<Rightarrow> (st\<lparr>files := rows\<rparr>,
                     Redirect (FileUrl n) [FlashSuccess ''File moved successfully'']))"

definition post_assign_folder ::
  "state \<Rightarrow> user option \<Rightarrow> file_key \<Rightarrow> string option \<Rightarrow> state \<times> response" where
  "post_assign_folder st u n folderId0 =
     (case u of
        None \<Rightarrow> (console_error ''Error updating file folder:'' st,
                  Redirect (FileUrl n) [FlashError ''Unable to move file''])
      | Some usr \<Rightarrow>
         (case findFirst (owned_where usr n) (files st) of
            None \<Rightarrow> (st, Redirect FilesUrl [FlashError ''File not found''])
          | Some f \<Rightarrow>
             (if truthy folderId0
              then (case findFirst (Obj [equals folder_id folderId0,
                                         equals folder_userId (Some (user_id usr))]) (folders st) of
                      None \<Rightarrow> (st, Redirect (FileUrl n) [FlashError ''Selected folder not found''])
                    | Some g \<Rightarrow> assign_update st n f folderId0)
              else assign_update st n f None)))"

section \<open>Sequences of requests\<close>

datatype request =
    GetPublic
  | GetIndex "user option"
  | PostUpload upload_request
  | GetDownload "user option" file_key
  | DeleteFile "user option" file_key
  | GetInfo "user option" file_key
  | PostAssignFolder "user option" file_key "string option"

fun handle :: "state \<Rightarrow> request \<Rightarrow> state \<times> response" where
  "handle st GetPublic = get_public st"
| "handle st (GetIndex u) = get_index st u"
| "handle st (PostUpload req) = post_upload st req"
| "handle st (GetDownload u n) = get_download st u n"
| "handle st (DeleteFile u n) = delete_file st u n"
| "handle st (GetInfo u n) = get_info st u n"
| "handle st (PostAssignFolder u n k) = post_assign_folder st u n k"

fun run :: "state \<Rightarrow> request list \<Rightarrow> state" where
  "run st [] = st"
| "run st (r # rs) = run (fst (handle st r)) rs"

section \<open>Store invariants\<close>

text \<open>File keys are unique and below the counter that assigns the next one.\<close>

definition keys_ok :: "state \<Rightarrow> bool" where
  "keys_ok st =
     (distinct (map file_id (files st)) \<and> list_all (\<lambda>f. file_id f < nextFileId st) (files st))"

text \<open>A filed file names a folder of the folder table, and that folder belongs to the
  owner of the file.\<close>

definition filed_with_owner :: "folder list \<Rightarrow> file_row \<Rightarrow> bool" where
  "filed_with_owner gs f =
     (case folderId f of
        None \<Rightarrow> True
      | Some k \<Rightarrow> (case find (\<lambda>g. folder_id g = k) gs of
                    None \<Rightarrow> False
                  | Some g \<Rightarrow> folder_userId g = userId f))"

definition folder_refs_ok :: "state \<Rightarrow> bool" where
  "folder_refs_ok st = list_all (filed_with_owner (folders st)) (files st)"

text \<open>The invariant of the store: unique file keys, unique folder keys, and every filed
  file in a folder of its owner.\<close>

definition store_ok :: "state \<Rightarrow> bool" where
  "store_ok st = (keys_ok st \<and> distinct (map folder_id (folders st)) \<and> folder_refs_ok st)"

section \<open>An example store\<close>

definition alice :: user where
  "alice = \<lparr>user_id = 1, user_email = ''alice@example.org'', user_name = ''Alice''\<rparr>"

definition bob :: user where
  "bob = \<lparr>user_id = 2, user_email = ''bob@example.org'', user_name = ''Bob''\<rparr>"

definition f1 :: file_row where
  "f1 = \<lparr>file_id = 1, filename = ''100-1-notes.txt'', originalName = ''notes.txt'',
          mimeType = ''text/plain'', file_size = 12, path = ''uploads/100-1-notes.txt'',
          description = None, isPublic = False, userId = 1, folderId = None, uploadedAt = 100\<rparr>"

definition f2 :: file_row where
  "f2 = \<lparr>file_id = 2, filename = ''200-2-logo.png'', originalName = ''logo.png'',
          mimeType = ''image/png'', file_size = 2048, path = ''uploads/200-2-logo.png'',
          description = Some ''Logo'', isPublic = True, userId = 1, folderId = Some ''g1'',
          uploadedAt = 200\<rparr>"

definition f3 :: file_row where
  "f3 = \<lparr>file_id = 3, filename = ''150-3-cv.pdf'', originalName = ''cv.pdf'',
          mimeType = ''application/pdf'', file_size = 4096, path = ''uploads/150-3-cv.pdf'',
          description = None, isPublic = False, userId = 2, folderId = None, uploadedAt = 150\<rparr>"

definition g1 :: folder where
  "g1 = \<lparr>folder_id = ''g1'', folder_name = ''Pictures'', folder_userId = 1, parentId = None\<rparr>"

text \<open>The blob of \<open>f1\<close> is missing from the upload directory, so removing it fails.\<close>

definition st0 :: state where
  "st0 = \<lparr>files = [f1, f2, f3], folders = [g1], nextFileId = 4,
           disk = [''uploads/200-2-logo.png'', ''uploads/150-3-cv.pdf''], logs = []\<rparr>"

definition song :: multer_file where
  "song = \<lparr>mf_filename = ''300-4-song.mp3'', mf_originalname = ''song.mp3'',
            mf_mimetype = ''audio/mp3'', mf_size = 9000, mf_path = ''uploads/300-4-song.mp3''\<rparr>"

text \<open>Bob uploads into Alice's folder and writes the visibility flag with a capital.\<close>

definition upload0 :: upload_request where
  "upload0 = \<lparr>up_user = Some bob, up_file = Some song, up_folderId = Some ''g1'',
               up_description = None, up_isPublic = Some ''True'', up_errors = [], up_now = 300\<rparr>"

text \<open>Bob tries to move his file into Alice's folder, uploads, and Alice files her own.\<close>

definition requests0 :: "request list" where
  "requests0 = [PostAssignFolder (Some bob) 3 (Some ''g1''), PostUpload upload0,
                PostAssignFolder (Some alice) 1 (Some ''g1'')]"

section \<open>Lookups in the tables\<close>

lemma find_by_key:
  assumes "distinct (map key rows)" "F \<in> set rows" "P F" "\<And>x. P x \<Longrightarrow> key x = key F"
  shows "find P rows = Some F"
  using assms(1,2)
proof (induction rows)
  case Nil
  then show ?case by simp
next
  case (Cons a rows)
  show ?case
  proof (cases "a = F")
    case True
    then show ?thesis using assms(3) by simp
  next
    case False
    then have in_rows: "F \<in> set rows" using Cons.prems(2) by simp
    then have "key F \<in> set (map key rows)" by simp
    then have "key a \<noteq> key F" using Cons.prems(1) by auto
    then have "\<not> P a" using assms(4) by blast
    moreover have "find P rows = Some F" using Cons.IH Cons.prems(1) in_rows by simp
    ultimately show ?thesis by simp
  qed
qed

lemma find_none: "(\<And>x. x \<in> set rows \<Longrightarrow> \<not> P x) \<Longrightarrow> find P rows = None"
  by (simp add: find_None_iff)

lemma find_SomeD: "find P xs = Some x \<Longrightarrow> x \<in> set xs \<and> P x"
  by (auto simp: find_Some_iff)

lemma findFirst_SomeD: "findFirst w rows = Some r \<Longrightarrow> r \<in> set rows \<and> matches w r"
  by (auto simp: findFirst_def find_Some_iff)

lemma matches_readable:
  "matches (readable_where u n) f =
     (file_id f = n \<and> (canEdit u f \<or> isPublic f))"
  by (cases u) (auto simp: readable_where_def equals_def canEdit_def)

lemma matches_owned:
  "matches (owned_where usr n) f = (file_id f = n \<and> userId f = user_id usr)"
  by (auto simp: owned_where_def equals_def)

lemma matches_folder_where:
  "matches (Obj [equals folder_id (Some kid), equals folder_userId (Some uid)]) g =
     (folder_id g = kid \<and> folder_userId g = uid)"
  by (simp add: equals_def)

lemma matches_single_field: "matches (Obj [equals get (Some v)]) = (\<lambda>r. get r = v)"
  by (rule ext) (simp add: equals_def)

lemma findFirst_readable:
  assumes "distinct (map file_id (files st))" "F \<in> set (files st)"
  shows "findFirst (readable_where u (file_id F)) (files st) =
           (if canEdit u F \<or> isPublic F
            then Some F else None)"
proof (cases "canEdit u F \<or> isPublic F")
  case True
  then have "matches (readable_where u (file_id F)) F" by (simp add: matches_readable)
  then have "find (matches (readable_where u (file_id F))) (files st) = Some F"
    using assms by (intro find_by_key [where key = file_id]) (simp_all add: matches_readable)
  then show ?thesis using True by (simp add: findFirst_def)
next
  case False
  have "\<not> matches (readable_where u (file_id F)) x" if "x \<in> set (files st)" for x
  proof
    assume m: "matches (readable_where u (file_id F)) x"
    then have "file_id x = file_id F" by (simp add: matches_readable)
    then have "x = F" using assms that by (meson distinct_map inj_onD)
    then show False using m False by (simp add: matches_readable)
  qed
  then have "find (matches (readable_where u (file_id F))) (files st) = None"
    by (intro find_none)
  then show ?thesis using False by (simp add: findFirst_def)
qed

lemma findFirst_owned:
  assumes "distinct (map file_id (files st))" "F \<in> set (files st)"
  shows "findFirst (owned_where usr (file_id F)) (files st) =
           (if userId F = user_id usr then Some F else None)"
proof (cases "userId F = user_id usr")
  case True
  then have "find (matches (owned_where usr (file_id F))) (files st) = Some F"
    using assms by (intro find_by_key [where key = file_id]) (simp_all add: matches_owned)
  then show ?thesis using True by (simp add: findFirst_def)
next
  case False
  have "\<not> matches (owned_where usr (file_id F)) x" if "x \<in> set (files st)" for x
  proof
    assume m: "matches (owned_where usr (file_id F)) x"
    then have "file_id x = file_id F" by (simp add: matches_owned)
    then have "x = F" using assms that by (meson distinct_map inj_onD)
    then show False using m False by (simp add: matches_owned)
  qed
  then have "find (matches (owned_where usr (file_id F))) (files st) = None"
    by (intro find_none)
  then show ?thesis using False by (simp add: findFirst_def)
qed

lemma findFirst_owned_some:
  assumes "F \<in> set (files st)" "userId F = user_id P"
  shows "\<exists>f. findFirst (owned_where P (file_id F)) (files st) = Some f \<and> file_id f = file_id F"
proof (cases "findFirst (owned_where P (file_id F)) (files st)")
  case None
  then have "\<not> matches (owned_where P (file_id F)) F"
    using assms(1) by (auto simp: findFirst_def find_None_iff)
  then show ?thesis using assms(2) by (simp add: matches_owned)
next
  case (Some f)
  then have "matches (owned_where P (file_id F)) f"
    by (auto simp: findFirst_def find_Some_iff)
  then show ?thesis using Some by (simp add: matches_owned)
qed

lemma findFirst_absent_readable:
  "\<not> list_ex (\<lambda>f. file_id f = n) (files st) \<Longrightarrow> findFirst (readable_where u n) (files st) = None"
  by (auto simp: findFirst_def find_None_iff matches_readable list_ex_iff)

lemma findFirst_absent_owned:
  "\<not> list_ex (\<lambda>f. file_id f = n) (files st) \<Longrightarrow> findFirst (owned_where usr n) (files st) = None"
  by (auto simp: findFirst_def find_None_iff matches_owned list_ex_iff)

lemma findFirst_folder_None:
  "(findFirst (Obj [equals folder_id (Some kid), equals folder_userId (Some uid)]) gs = None) =
     (\<not> list_ex (\<lambda>g. folder_id g = kid \<and> folder_userId g = uid) gs)"
  unfolding findFirst_def find_None_iff list_ex_iff matches_folder_where by blast

section \<open>What the routes answer\<close>

lemma get_info_present:
  assumes "distinct (map file_id (files st))" "F \<in> set (files st)"
  shows "get_info st u (file_id F) =
           (if canEdit u F \<or> isPublic F
            then (st, RenderInfo F
                   (if canEdit u F
                    then findMany (Obj [equals folder_userId (map_option user_id u)]) folder_name (folders st)
                    else []) (canEdit u F))
            else (st, Render404))"
  by (simp add: get_info_def findFirst_readable [OF assms])

lemma get_info_absent:
  "\<not> list_ex (\<lambda>f. file_id f = n) (files st) \<Longrightarrow> get_info st u n = (st, Render404)"
  by (simp add: get_info_def findFirst_absent_readable)

lemma get_download_present:
  assumes "distinct (map file_id (files st))" "F \<in> set (files st)"
  shows "get_download st u (file_id F) =
           (if canEdit u F \<or> isPublic F then (st, Download (path F) (originalName F))
            else (st, Render404))"
  by (simp add: get_download_def findFirst_readable [OF assms])

lemma get_download_absent:
  "\<not> list_ex (\<lambda>f. file_id f = n) (files st) \<Longrightarrow> get_download st u n = (st, Render404)"
  by (simp add: get_download_def findFirst_absent_readable)

lemma absent_after_filter:
  "\<not> list_ex (\<lambda>f. file_id f = n) (filter (\<lambda>f. file_id f \<noteq> n) rows)"
  by (simp add: list_ex_iff)

lemma delete_file_owner:
  assumes "F \<in> set (files st)" "userId F = user_id P"
  shows "\<exists>st1. delete_file st (Some P) (file_id F) =
            (st1\<lparr>files := filter (\<lambda>f. file_id f \<noteq> file_id F) (files st)\<rparr>, JsonSuccess)
          \<and> files st1 = files st \<and> folders st1 = folders st \<and> nextFileId st1 = nextFileId st"
proof -
  obtain f where f: "findFirst (owned_where P (file_id F)) (files st) = Some f" "file_id f = file_id F"
    using findFirst_owned_some [OF assms] by blast
  define st1 where "st1 = (case unlink (path f) (disk st) of
                           Inl e \<Rightarrow> console_error ''Error deleting file from filesystem:'' st
                         | Inr d \<Rightarrow> st\<lparr>disk := d\<rparr>)"
  have same: "files st1 = files st" "folders st1 = folders st" "nextFileId st1 = nextFileId st"
    by (simp_all add: st1_def console_error_def split: sum.split)
  have ex: "list_ex (\<lambda>x. file_id x = file_id F) (files st)"
    using assms(1) by (auto simp: list_ex_iff)
  have "delete_file st (Some P) (file_id F) =
          (st1\<lparr>files := filter (\<lambda>f. file_id f \<noteq> file_id F) (files st)\<rparr>, JsonSuccess)"
    using f ex same by (simp add: delete_file_def file_delete_def st1_def [symmetric])
  then show ?thesis using same by blast
qed

lemma delete_file_present:
  assumes "distinct (map file_id (files st))" "F \<in> set (files st)" "userId F = user_id P"
  shows "delete_file st (Some P) (file_id F) =
           ((case unlink (path F) (disk st) of
               Inl e \<Rightarrow> console_error ''Error deleting file from filesystem:'' st
             | Inr d \<Rightarrow> st\<lparr>disk := d\<rparr>)
            \<lparr>files := filter (\<lambda>f. file_id f \<noteq> file_id F) (files st)\<rparr>, JsonSuccess)"
proof -
  have ex: "list_ex (\<lambda>x. file_id x = file_id F) (files st)"
    using assms(2) by (auto simp: list_ex_iff)
  show ?thesis
    using assms(3) ex
    by (simp add: delete_file_def findFirst_owned [OF assms(1,2)] file_delete_def
        console_error_def split: sum.split)
qed

lemma delete_file_foreign:
  assumes "distinct (map file_id (files st))" "F \<in> set (files st)" "userId F \<noteq> user_id P"
  shows "delete_file st (Some P) (file_id F) = (st, Json404)"
  using assms(3) by (simp add: delete_file_def findFirst_owned [OF assms(1,2)])

lemma delete_file_absent:
  "\<not> list_ex (\<lambda>f. file_id f = n) (files st) \<Longrightarrow> delete_file st (Some P) n = (st, Json404)"
  by (simp add: delete_file_def findFirst_absent_owned)

lemma assign_update_present:
  assumes "F \<in> set (files st)"
  shows "assign_update st n F v =
           (st\<lparr>files := map (\<lambda>f. if file_id f = file_id F then f\<lparr>folderId := v\<rparr> else f) (files st)\<rparr>,
            Redirect (FileUrl n) [FlashSuccess ''File moved successfully''])"
proof -
  have "list_ex (\<lambda>f. file_id f = file_id F) (files st)"
    using assms by (auto simp: list_ex_iff)
  then show ?thesis by (simp add: assign_update_def file_update_def)
qed

lemma post_assign_folder_owner:
  assumes "distinct (map file_id (files st))" "F \<in> set (files st)" "userId F = user_id P"
  shows "post_assign_folder st (Some P) (file_id F) k =
           (case k of
              None \<Rightarrow> assign_update st (file_id F) F None
            | Some kid \<Rightarrow>
                if kid = [] then assign_update st (file_id F) F None
                else if list_ex (\<lambda>g. folder_id g = kid \<and> folder_userId g = user_id P) (folders st)
                then assign_update st (file_id F) F (Some kid)
                else (st, Redirect (FileUrl (file_id F)) [FlashError ''Selected folder not found'']))"
proof (cases k)
  case None
  then show ?thesis
    using assms(3) by (simp add: post_assign_folder_def findFirst_owned [OF assms(1,2)] truthy_def)
next
  case (Some kid)
  show ?thesis
  proof (cases "findFirst (Obj [equals folder_id (Some kid), equals folder_userId (Some (user_id P))]) (folders st)")
    case None
    then show ?thesis
      using assms(3) Some findFirst_folder_None [of kid "user_id P" "folders st"]
      by (simp add: post_assign_folder_def findFirst_owned [OF assms(1,2)] truthy_def)
  next
    case (Some g)
    then show ?thesis
      using assms(3) \<open>k = Some kid\<close> findFirst_folder_None [of kid "user_id P" "folders st"]
      by (simp add: post_assign_folder_def findFirst_owned [OF assms(1,2)] truthy_def)
  qed
qed

lemma post_assign_folder_foreign:
  assumes "distinct (map file_id (files st))" "F \<in> set (files st)" "userId F \<noteq> user_id P"
  shows "post_assign_folder st (Some P) (file_id F) k =
           (st, Redirect FilesUrl [FlashError ''File not found''])"
  using assms(3) by (simp add: post_assign_folder_def findFirst_owned [OF assms(1,2)])

lemma post_assign_folder_absent:
  "\<not> list_ex (\<lambda>f. file_id f = n) (files st) \<Longrightarrow>
     post_assign_folder st (Some P) n k = (st, Redirect FilesUrl [FlashError ''File not found''])"
  by (simp add: post_assign_folder_def findFirst_absent_owned)

lemma post_upload_ok:
  assumes "up_errors req = []" "up_file req = Some mf" "up_user req = Some P"
  shows "post_upload st req =
           (file_create
              \<lparr>file_id = 0, filename = mf_filename mf, originalName = mf_originalname mf,
                mimeType = mf_mimetype mf, file_size = mf_size mf, path = mf_path mf,
                description = or_null (up_description req),
                isPublic = (up_isPublic req = Some ''true''),
                userId = user_id P,
                folderId = (case up_folderId req of
                              None \<Rightarrow> None
                            | Some kid \<Rightarrow>
                                if kid \<noteq> [] \<and> list_ex (\<lambda>g. folder_id g = kid \<and> folder_userId g = user_id P) (folders st)
                                then Some kid else None),
                uploadedAt = 0\<rparr> (up_now req) st,
            Redirect FilesUrl [FlashSuccess ''File uploaded successfully!''])"
proof (cases "up_folderId req")
  case None
  then show ?thesis using assms by (simp add: post_upload_def or_null_def truthy_def)
next
  case (Some kid)
  show ?thesis
  proof (cases "kid = []")
    case True
    then show ?thesis using assms Some by (simp add: post_upload_def or_null_def truthy_def)
  next
    case False
    show ?thesis
    proof (cases "findFirst (Obj [equals folder_id (Some kid), equals folder_userId (Some (user_id P))]) (folders st)")
      case None
      then show ?thesis
        using assms \<open>up_folderId req = Some kid\<close> False
          findFirst_folder_None [of kid "user_id P" "folders st"]
        by (simp add: post_upload_def or_null_def truthy_def)
    next
      case (Some g)
      then show ?thesis
        using assms \<open>up_folderId req = Some kid\<close> False
          findFirst_folder_None [of kid "user_id P" "folders st"]
        by (simp add: post_upload_def or_null_def truthy_def)
    qed
  qed
qed

section \<open>Reading\<close>

text \<open>
  Claim C1. For a file of the store and a request without a user, the info route and the
  download route answer with the file exactly when the file is public; for a private
  file both answer with the 404 page.
\<close>

theorem anonymous_reads_only_public:
  assumes "distinct (map file_id (files st))" "F \<in> set (files st)"
  shows "get_info st None (file_id F) =
           (if isPublic F then (st, RenderInfo F [] False) else (st, Render404))
       \<and> get_download st None (file_id F) =
           (if isPublic F then (st, Download (path F) (originalName F)) else (st, Render404))"
  by (simp add: get_info_present [OF assms] get_download_present [OF assms] canEdit_def)

theorem anonymous_reads_only_public_witness:
  "distinct (map file_id (files st0)) \<and> f1 \<in> set (files st0) \<and> f2 \<in> set (files st0)
   \<and> get_info st0 None 1 = (st0, Render404)
   \<and> get_download st0 None 1 = (st0, Render404)
   \<and> get_info st0 None 2 = (st0, RenderInfo f2 [] False)
   \<and> get_download st0 None 2 = (st0, Download ''uploads/200-2-logo.png'' ''logo.png'')"
proof -
  have d: "distinct (map file_id (files st0))" by (simp add: st0_def f1_def f2_def f3_def)
  have m1: "f1 \<in> set (files st0)" and m2: "f2 \<in> set (files st0)" by (simp_all add: st0_def)
  show ?thesis
    using d m1 m2 anonymous_reads_only_public [OF d m1] anonymous_reads_only_public [OF d m2]
    by (simp add: f1_def f2_def)
qed

text \<open>
  Claim C4. The owner of a file gets its info page (with the edit flag) and its download,
  can delete it and can move it (out of any folder, or into any folder of theirs),
  whether the file is public or not. Another authenticated user gets the info page and
  the download exactly when the file is public, and gets the "not found" answer from the
  delete and the assign-folder routes, which leave the state alone.
\<close>

theorem owner_and_other_users:
  assumes "distinct (map file_id (files st))" "F \<in> set (files st)"
  shows "(userId F = user_id P \<longrightarrow>
            (\<exists>gs. get_info st (Some P) (file_id F) = (st, RenderInfo F gs True))
          \<and> get_download st (Some P) (file_id F) = (st, Download (path F) (originalName F))
          \<and> (\<exists>st'. delete_file st (Some P) (file_id F) = (st', JsonSuccess) \<and> F \<notin> set (files st'))
          \<and> post_assign_folder st (Some P) (file_id F) None =
              (st\<lparr>files := map (\<lambda>f. if file_id f = file_id F then f\<lparr>folderId := None\<rparr> else f) (files st)\<rparr>,
               Redirect (FileUrl (file_id F)) [FlashSuccess ''File moved successfully''])
          \<and> (\<forall>kid. kid \<noteq> [] \<and> list_ex (\<lambda>g. folder_id g = kid \<and> folder_userId g = user_id P) (folders st) \<longrightarrow>
                post_assign_folder st (Some P) (file_id F) (Some kid) =
                  (st\<lparr>files := map (\<lambda>f. if file_id f = file_id F then f\<lparr>folderId := Some kid\<rparr> else f) (files st)\<rparr>,
                   Redirect (FileUrl (file_id F)) [FlashSuccess ''File moved successfully''])))
       \<and> (userId F \<noteq> user_id P \<longrightarrow>
            get_info st (Some P) (file_id F) =
              (if isPublic F then (st, RenderInfo F [] False) else (st, Render404))
          \<and> get_download st (Some P) (file_id F) =
              (if isPublic F then (st, Download (path F) (originalName F)) else (st, Render404))
          \<and> delete_file st (Some P) (file_id F) = (st, Json404)
          \<and> (\<forall>k. post_assign_folder st (Some P) (file_id F) k =
                   (st, Redirect FilesUrl [FlashError ''File not found''])))"
proof (intro conjI impI)
  assume own: "userId F = user_id P"
  show "\<exists>gs. get_info st (Some P) (file_id F) = (st, RenderInfo F gs True)"
    using own by (simp add: get_info_present [OF assms] canEdit_def)
  show "get_download st (Some P) (file_id F) = (st, Download (path F) (originalName F))"
    using own by (simp add: get_download_present [OF assms] canEdit_def)
  show "\<exists>st'. delete_file st (Some P) (file_id F) = (st', JsonSuccess) \<and> F \<notin> set (files st')"
    by (simp add: delete_file_present [OF assms own])
  show "post_assign_folder st (Some P) (file_id F) None =
          (st\<lparr>files := map (\<lambda>f. if file_id f = file_id F then f\<lparr>folderId := None\<rparr> else f) (files st)\<rparr>,
           Redirect (FileUrl (file_id F)) [FlashSuccess ''File moved successfully''])"
    by (simp add: post_assign_folder_owner [OF assms own] assign_update_present [OF assms(2)])
  show "\<forall>kid. kid \<noteq> [] \<and> list_ex (\<lambda>g. folder_id g = kid \<and> folder_userId g = user_id P) (folders st) \<longrightarrow>
          post_assign_folder st (Some P) (file_id F) (Some kid) =
            (st\<lparr>files := map (\<lambda>f. if file_id f = file_id F then f\<lparr>folderId := Some kid\<rparr> else f) (files st)\<rparr>,
             Redirect (FileUrl (file_id F)) [FlashSuccess ''File moved successfully''])"
    by (simp add: post_assign_folder_owner [OF assms own] assign_update_present [OF assms(2)])
next
  assume other: "userId F \<noteq> user_id P"
  show "get_info st (Some P) (file_id F) =
          (if isPublic F then (st, RenderInfo F [] False) else (st, Render404))"
    using other by (simp add: get_info_present [OF assms] canEdit_def)
  show "get_download st (Some P) (file_id F) =
          (if isPublic F then (st, Download (path F) (originalName F)) else (st, Render404))"
    using other by (simp add: get_download_present [OF assms] canEdit_def)
  show "delete_file st (Some P) (file_id F) = (st, Json404)"
    by (rule delete_file_foreign [OF assms other])
  show "\<forall>k. post_assign_folder st (Some P) (file_id F) k =
              (st, Redirect FilesUrl [FlashError ''File not found''])"
    by (simp add: post_assign_folder_foreign [OF assms other])
qed

theorem owner_and_other_users_witness:
  "distinct (map file_id (files st0)) \<and> f1 \<in> set (files st0)
   \<and> userId f1 = user_id alice \<and> userId f1 \<noteq> user_id bob \<and> \<not> isPublic f1
   \<and> (\<exists>gs. get_info st0 (Some alice) 1 = (st0, RenderInfo f1 gs True))
   \<and> (\<exists>st'. delete_file st0 (Some alice) 1 = (st', JsonSuccess) \<and> f1 \<notin> set (files st'))
   \<and> get_info st0 (Some bob) 1 = (st0, Render404)
   \<and> delete_file st0 (Some bob) 1 = (st0, Json404)
   \<and> post_assign_folder st0 (Some bob) 1 None = (st0, Redirect FilesUrl [FlashError ''File not found''])"
proof -
  have d: "distinct (map file_id (files st0))" by (simp add: st0_def f1_def f2_def f3_def)
  have m: "f1 \<in> set (files st0)" by (simp add: st0_def)
  have o: "userId f1 = user_id alice" and n: "userId f1 \<noteq> user_id bob" and p: "\<not> isPublic f1"
    and i: "file_id f1 = 1"
    by (simp_all add: f1_def alice_def bob_def)
  show ?thesis
    using d m o n p i owner_and_other_users [OF d m, of alice] owner_and_other_users [OF d m, of bob]
    by simp
qed

text \<open>
  Claim C5. Take a store that holds a file \<open>F\<close> and any store that holds no file with
  the key of \<open>F\<close>. A principal who may not read \<open>F\<close> (the file is private and is not
  theirs) gets the 404 page from the info and the download route in both stores. A
  principal who may not change \<open>F\<close> gets the same answer from the delete route in both
  stores, and the same answer from the assign-folder route; for an authenticated
  principal this answer is the "not found" answer of the route. (The handlers of delete
  and assign-folder are registered behind \<^verbatim>\<open>ensureAuthenticated\<close>; called without a
  user they answer from their \<^verbatim>\<open>catch\<close>, in both stores alike.)
\<close>

theorem unauthorized_looks_absent:
  assumes "distinct (map file_id (files st))" "F \<in> set (files st)"
    and "\<not> list_ex (\<lambda>f. file_id f = file_id F) (files st')"
  shows "(\<not> isPublic F \<and> \<not> canEdit u F \<longrightarrow>
            get_info st u (file_id F) = (st, Render404)
          \<and> get_info st' u (file_id F) = (st', Render404)
          \<and> get_download st u (file_id F) = (st, Render404)
          \<and> get_download st' u (file_id F) = (st', Render404))
       \<and> (\<not> canEdit u F \<longrightarrow>
            snd (delete_file st u (file_id F)) = snd (delete_file st' u (file_id F))
          \<and> snd (post_assign_folder st u (file_id F) k) = snd (post_assign_folder st' u (file_id F) k))
       \<and> (\<not> canEdit u F \<and> u \<noteq> None \<longrightarrow>
            delete_file st u (file_id F) = (st, Json404)
          \<and> delete_file st' u (file_id F) = (st', Json404)
          \<and> post_assign_folder st u (file_id F) k = (st, Redirect FilesUrl [FlashError ''File not found''])
          \<and> post_assign_folder st' u (file_id F) k = (st', Redirect FilesUrl [FlashError ''File not found'']))"
proof (intro conjI impI)
  assume hidden: "\<not> isPublic F \<and> \<not> canEdit u F"
  show "get_info st u (file_id F) = (st, Render404)"
    using hidden by (simp add: get_info_present [OF assms(1,2)])
  show "get_info st' u (file_id F) = (st', Render404)"
    by (rule get_info_absent [OF assms(3)])
  show "get_download st u (file_id F) = (st, Render404)"
    using hidden by (simp add: get_download_present [OF assms(1,2)])
  show "get_download st' u (file_id F) = (st', Render404)"
    by (rule get_download_absent [OF assms(3)])
next
  assume no: "\<not> canEdit u F"
  show "snd (delete_file st u (file_id F)) = snd (delete_file st' u (file_id F))"
  proof (cases u)
    case None
    then show ?thesis by (simp add: delete_file_def)
  next
    case (Some P)
    with no have "userId F \<noteq> user_id P" by (simp add: canEdit_def)
    then show ?thesis
      using Some delete_file_foreign [OF assms(1,2)] delete_file_absent [OF assms(3)] by simp
  qed
  show "snd (post_assign_folder st u (file_id F) k) = snd (post_assign_folder st' u (file_id F) k)"
  proof (cases u)
    case None
    then show ?thesis by (simp add: post_assign_folder_def)
  next
    case (Some P)
    with no have "userId F \<noteq> user_id P" by (simp add: canEdit_def)
    then show ?thesis
      using Some post_assign_folder_foreign [OF assms(1,2)] post_assign_folder_absent [OF assms(3)]
      by simp
  qed
next
  assume "\<not> canEdit u F \<and> u \<noteq> None"
  then obtain P where u: "u = Some P" and other: "userId F \<noteq> user_id P"
    by (auto simp: canEdit_def)
  show "delete_file st u (file_id F) = (st, Json404)"
    unfolding u by (rule delete_file_foreign [OF assms(1,2) other])
  show "delete_file st' u (file_id F) = (st', Json404)"
    unfolding u by (rule delete_file_absent [OF assms(3)])
  show "post_assign_folder st u (file_id F) k = (st, Redirect FilesUrl [FlashError ''File not found''])"
    unfolding u by (rule post_assign_folder_foreign [OF assms(1,2) other])
  show "post_assign_folder st' u (file_id F) k = (st', Redirect FilesUrl [FlashError ''File not found''])"
    unfolding u by (rule post_assign_folder_absent [OF assms(3)])
qed

theorem unauthorized_looks_absent_witness:
  "distinct (map file_id (files st0)) \<and> f1 \<in> set (files st0)
   \<and> \<not> list_ex (\<lambda>f. file_id f = file_id f1) (files (st0\<lparr>files := [f2, f3]\<rparr>))
   \<and> \<not> isPublic f1 \<and> \<not> canEdit (Some bob) f1 \<and> \<not> canEdit None f1
   \<and> snd (get_info st0 None 1) = snd (get_info (st0\<lparr>files := [f2, f3]\<rparr>) None 1)
   \<and> snd (get_download st0 (Some bob) 1) = snd (get_download (st0\<lparr>files := [f2, f3]\<rparr>) (Some bob) 1)
   \<and> snd (delete_file st0 (Some bob) 1) = Json404
   \<and> snd (delete_file (st0\<lparr>files := [f2, f3]\<rparr>) (Some bob) 1) = Json404
   \<and> snd (post_assign_folder st0 (Some bob) 1 (Some ''g1''))
       = snd (post_assign_folder (st0\<lparr>files := [f2, f3]\<rparr>) (Some bob) 1 (Some ''g1''))"
proof -
  have d: "distinct (map file_id (files st0))" by (simp add: st0_def f1_def f2_def f3_def)
  have m: "f1 \<in> set (files st0)" by (simp add: st0_def)
  have a: "\<not> list_ex (\<lambda>f. file_id f = file_id f1) (files (st0\<lparr>files := [f2, f3]\<rparr>))"
    by (simp add: f1_def f2_def f3_def)
  have p: "\<not> isPublic f1" and e: "\<not> canEdit (Some bob) f1" "\<not> canEdit None f1" and i: "file_id f1 = 1"
    by (simp_all add: f1_def bob_def canEdit_def)
  show ?thesis
    using d m a p e i
      unauthorized_looks_absent [OF d m a, of None]
      unauthorized_looks_absent [OF d m a, of "Some bob" "Some ''g1''"]
    by simp
qed

section \<open>Deleting\<close>

text \<open>
  Claim C3. When the owner deletes a file, the route answers with success and the row is
  gone, whatever the upload directory holds: when the blob is there it is removed, and
  when it is not, \<open>unlink\<close> fails, the failure is logged and the row is deleted all the
  same. Afterwards the info and download routes answer 404 for the key, for every
  principal.
\<close>

theorem delete_survives_blob_failure:
  assumes "distinct (map file_id (files st))" "F \<in> set (files st)" "userId F = user_id P"
  shows "\<exists>st'. delete_file st (Some P) (file_id F) = (st', JsonSuccess)
           \<and> files st' = filter (\<lambda>f. file_id f \<noteq> file_id F) (files st)
           \<and> F \<notin> set (files st')
           \<and> get_info st' u (file_id F) = (st', Render404)
           \<and> get_download st' u (file_id F) = (st', Render404)
           \<and> (if path F \<in> set (disk st)
               then disk st' = removeAll (path F) (disk st) \<and> logs st' = logs st
               else unlink (path F) (disk st) = Inl ENOENT \<and> disk st' = disk st
                    \<and> logs st' = logs st @ [''Error deleting file from filesystem:''])"
proof -
  define st1 where "st1 = (case unlink (path F) (disk st) of
                             Inl e \<Rightarrow> console_error ''Error deleting file from filesystem:'' st
                           | Inr d \<Rightarrow> st\<lparr>disk := d\<rparr>)"
  define st' where "st' = st1\<lparr>files := filter (\<lambda>f. file_id f \<noteq> file_id F) (files st)\<rparr>"
  have del: "delete_file st (Some P) (file_id F) = (st', JsonSuccess)"
    by (simp add: delete_file_present [OF assms] st'_def st1_def)
  have fs: "files st' = filter (\<lambda>f. file_id f \<noteq> file_id F) (files st)"
    by (simp add: st'_def)
  then have gone: "\<not> list_ex (\<lambda>f. file_id f = file_id F) (files st')"
    by (simp add: absent_after_filter)
  have notin: "F \<notin> set (files st')" by (simp add: fs)
  have blob: "if path F \<in> set (disk st)
               then disk st' = removeAll (path F) (disk st) \<and> logs st' = logs st
               else unlink (path F) (disk st) = Inl ENOENT \<and> disk st' = disk st
                    \<and> logs st' = logs st @ [''Error deleting file from filesystem:'']"
    by (simp add: st'_def st1_def unlink_def console_error_def)
  show ?thesis
    using del fs notin blob get_info_absent [OF gone] get_download_absent [OF gone] by blast
qed

theorem delete_survives_blob_failure_witness:
  "distinct (map file_id (files st0)) \<and> f1 \<in> set (files st0) \<and> userId f1 = user_id alice
   \<and> path f1 \<notin> set (disk st0)
   \<and> (\<exists>st'. delete_file st0 (Some alice) (file_id f1) = (st', JsonSuccess)
           \<and> files st' = [f2, f3]
           \<and> get_info st' None (file_id f1) = (st', Render404)
           \<and> logs st' = [''Error deleting file from filesystem:''])"
proof -
  have d: "distinct (map file_id (files st0))" by (simp add: st0_def f1_def f2_def f3_def)
  have m: "f1 \<in> set (files st0)" by (simp add: st0_def)
  have o: "userId f1 = user_id alice" by (simp add: f1_def alice_def)
  have b: "path f1 \<notin> set (disk st0)" by (simp add: st0_def f1_def)
  have fl: "filter (\<lambda>f. file_id f \<noteq> file_id f1) (files st0) = [f2, f3]"
    by (simp add: st0_def f1_def f2_def f3_def)
  have lg: "logs st0 = []" by (simp add: st0_def)
  obtain st' where "delete_file st0 (Some alice) (file_id f1) = (st', JsonSuccess)"
    "files st' = filter (\<lambda>f. file_id f \<noteq> file_id f1) (files st0)"
    "get_info st' None (file_id f1) = (st', Render404)"
    "if path f1 \<in> set (disk st0)
       then disk st' = removeAll (path f1) (disk st0) \<and> logs st' = logs st0
       else unlink (path f1) (disk st0) = Inl ENOENT \<and> disk st' = disk st0
            \<and> logs st' = logs st0 @ [''Error deleting file from filesystem:'']"
    using delete_survives_blob_failure [OF d m o, of None] by blast
  then show ?thesis using d m o b fl lg by auto
qed

text \<open>
  Claim C8. When the owner of a file deletes it twice, the first call answers with
  success and the second with the 404 "File not found" answer of the delete route, not
  with the 500 answer of its \<^verbatim>\<open>catch\<close>; the second call leaves the state of the first
  call as it is.
\<close>

theorem delete_twice:
  assumes "F \<in> set (files st)" "userId F = user_id P"
  shows "\<exists>st1. delete_file st (Some P) (file_id F) = (st1, JsonSuccess)
           \<and> delete_file st1 (Some P) (file_id F) = (st1, Json404)"
proof -
  obtain st0 where d: "delete_file st (Some P) (file_id F) =
      (st0\<lparr>files := filter (\<lambda>f. file_id f \<noteq> file_id F) (files st)\<rparr>, JsonSuccess)"
    using delete_file_owner [OF assms] by blast
  let ?st1 = "st0\<lparr>files := filter (\<lambda>f. file_id f \<noteq> file_id F) (files st)\<rparr>"
  have "\<not> list_ex (\<lambda>f. file_id f = file_id F) (files ?st1)"
    by (simp add: absent_after_filter)
  then have "delete_file ?st1 (Some P) (file_id F) = (?st1, Json404)"
    by (rule delete_file_absent)
  with d show ?thesis by blast
qed

theorem delete_twice_witness:
  "f1 \<in> set (files st0) \<and> userId f1 = user_id alice \<and>
   (\<exists>st1. delete_file st0 (Some alice) (file_id f1) = (st1, JsonSuccess)
          \<and> delete_file st1 (Some alice) (file_id f1) = (st1, Json404))"
  using delete_twice [of f1 st0 alice] by (simp add: st0_def f1_def alice_def)

section \<open>Folders\<close>

text \<open>
  Claim C2. The owner of a file asks to move it to a folder key that is given (not
  empty) and names no folder of theirs, be it a key of no folder or of a folder of
  another user: the assign-folder route answers with the "Selected folder not found"
  error and returns the state as it was, so no field of any file has changed. (An absent
  or empty key is the request to unfile, see \<open>post_assign_folder_owner\<close>.)
\<close>

theorem reassign_unresolvable_folder_rejected:
  assumes "F \<in> set (files st)" "userId F = user_id P" "kid \<noteq> []"
    and "\<not> list_ex (\<lambda>g. folder_id g = kid \<and> folder_userId g = user_id P) (folders st)"
  shows "post_assign_folder st (Some P) (file_id F) (Some kid) =
           (st, Redirect (FileUrl (file_id F)) [FlashError ''Selected folder not found''])"
proof -
  obtain f where "findFirst (owned_where P (file_id F)) (files st) = Some f"
    using findFirst_owned_some [OF assms(1,2)] by blast
  moreover have "findFirst (Obj [equals folder_id (Some kid), equals folder_userId (Some (user_id P))])
                   (folders st) = None"
    using assms(4) by (simp add: findFirst_folder_None)
  ultimately show ?thesis
    using assms(3) by (simp add: post_assign_folder_def truthy_def)
qed

theorem reassign_unresolvable_folder_rejected_witness:
  "f3 \<in> set (files st0) \<and> userId f3 = user_id bob \<and> ''g1'' \<noteq> []
   \<and> \<not> list_ex (\<lambda>g. folder_id g = ''g1'' \<and> folder_userId g = user_id bob) (folders st0)
   \<and> \<not> list_ex (\<lambda>g. folder_id g = ''nowhere'' \<and> folder_userId g = user_id bob) (folders st0)
   \<and> post_assign_folder st0 (Some bob) 3 (Some ''g1'') =
        (st0, Redirect (FileUrl 3) [FlashError ''Selected folder not found''])
   \<and> post_assign_folder st0 (Some bob) 3 (Some ''nowhere'') =
        (st0, Redirect (FileUrl 3) [FlashError ''Selected folder not found''])"
proof -
  have m: "f3 \<in> set (files st0)" and o: "userId f3 = user_id bob"
    by (simp_all add: st0_def f3_def bob_def)
  have k1: "''g1'' \<noteq> []" and k2: "''nowhere'' \<noteq> []" by simp_all
  have n1: "\<not> list_ex (\<lambda>g. folder_id g = ''g1'' \<and> folder_userId g = user_id bob) (folders st0)"
    by (simp add: st0_def g1_def bob_def)
  have n2: "\<not> list_ex (\<lambda>g. folder_id g = ''nowhere'' \<and> folder_userId g = user_id bob) (folders st0)"
    by (simp add: st0_def g1_def bob_def)
  show ?thesis
    using m o n1 n2
      reassign_unresolvable_folder_rejected [OF m o k1 n1]
      reassign_unresolvable_folder_rejected [OF m o k2 n2]
    by (simp add: f3_def)
qed

text \<open>
  Claim C6. An authenticated user uploads with a folder key that names no folder of
  theirs (a key of no folder, or of a folder of another user). The upload route answers
  as it does for the same request without a folder key, so the folder key never makes
  the upload fail; and when the request passed validation and carries a file, the route
  stores a new file row with no folder and answers with the success redirect.
\<close>

theorem upload_with_unresolvable_folder:
  assumes "up_user req = Some P"
    and "\<not> list_ex (\<lambda>g. Some (folder_id g) = up_folderId req \<and> folder_userId g = user_id P) (folders st)"
  shows "post_upload st req = post_upload st (req\<lparr>up_folderId := None\<rparr>)
       \<and> (up_errors req = [] \<and> up_file req = Some mf \<longrightarrow>
            post_upload st req =
              (st\<lparr>files := files st @
                     [\<lparr>file_id = nextFileId st, filename = mf_filename mf,
                       originalName = mf_originalname mf, mimeType = mf_mimetype mf,
                       file_size = mf_size mf, path = mf_path mf,
                       description = or_null (up_description req),
                       isPublic = (up_isPublic req = Some ''true''),
                       userId = user_id P, folderId = None, uploadedAt = up_now req\<rparr>],
                  nextFileId := nextFileId st + 1\<rparr>,
               Redirect FilesUrl [FlashSuccess ''File uploaded successfully!'']))"
proof -
  have created: "post_upload st req =
              (st\<lparr>files := files st @
                     [\<lparr>file_id = nextFileId st, filename = mf_filename m,
                       originalName = mf_originalname m, mimeType = mf_mimetype m,
                       file_size = mf_size m, path = mf_path m,
                       description = or_null (up_description req),
                       isPublic = (up_isPublic req = Some ''true''),
                       userId = user_id P, folderId = None, uploadedAt = up_now req\<rparr>],
                  nextFileId := nextFileId st + 1\<rparr>,
               Redirect FilesUrl [FlashSuccess ''File uploaded successfully!''])"
    if "up_errors req = []" "up_file req = Some m" for m
    using assms(2)
    by (cases "up_folderId req") (simp_all add: post_upload_ok [OF that assms(1)] file_create_def)
  have same: "post_upload st req = post_upload st (req\<lparr>up_folderId := None\<rparr>)"
  proof (cases "up_errors req = []")
    case False
    then show ?thesis by (simp add: post_upload_def)
  next
    case True
    show ?thesis
    proof (cases "up_file req")
      case None
      then show ?thesis using True by (simp add: post_upload_def)
    next
      case (Some m)
      have "post_upload st (req\<lparr>up_folderId := None\<rparr>) =
              (st\<lparr>files := files st @
                     [\<lparr>file_id = nextFileId st, filename = mf_filename m,
                       originalName = mf_originalname m, mimeType = mf_mimetype m,
                       file_size = mf_size m, path = mf_path m,
                       description = or_null (up_description req),
                       isPublic = (up_isPublic req = Some ''true''),
                       userId = user_id P, folderId = None, uploadedAt = up_now req\<rparr>],
                  nextFileId := nextFileId st + 1\<rparr>,
               Redirect FilesUrl [FlashSuccess ''File uploaded successfully!''])"
        using True Some assms(1)
        by (simp add: post_upload_ok [of "req\<lparr>up_folderId := None\<rparr>" m P] file_create_def)
      then show ?thesis using created [OF True Some] by simp
    qed
  qed
  from same created show ?thesis by blast
qed

theorem upload_with_unresolvable_folder_witness:
  "up_user upload0 = Some bob
   \<and> \<not> list_ex (\<lambda>g. Some (folder_id g) = up_folderId upload0 \<and> folder_userId g = user_id bob) (folders st0)
   \<and> up_folderId upload0 = Some ''g1'' \<and> up_errors upload0 = [] \<and> up_file upload0 = Some song
   \<and> post_upload st0 upload0 =
        (st0\<lparr>files := [f1, f2, f3,
                 \<lparr>file_id = 4, filename = ''300-4-song.mp3'', originalName = ''song.mp3'',
                   mimeType = ''audio/mp3'', file_size = 9000, path = ''uploads/300-4-song.mp3'',
                   description = None, isPublic = False, userId = 2, folderId = None,
                   uploadedAt = 300\<rparr>],
              nextFileId := 5\<rparr>,
         Redirect FilesUrl [FlashSuccess ''File uploaded successfully!''])"
proof -
  have e: "up_errors upload0 = []" and f: "up_file upload0 = Some song"
    and u: "up_user upload0 = Some bob" and k: "up_folderId upload0 = Some ''g1''"
    by (simp_all add: upload0_def)
  have n: "\<not> list_ex (\<lambda>g. Some (folder_id g) = up_folderId upload0 \<and> folder_userId g = user_id bob) (folders st0)"
    by (simp add: st0_def g1_def bob_def upload0_def)
  have r: "post_upload st0 upload0 =
              (st0\<lparr>files := files st0 @
                     [\<lparr>file_id = nextFileId st0, filename = mf_filename song,
                       originalName = mf_originalname song, mimeType = mf_mimetype song,
                       file_size = mf_size song, path = mf_path song,
                       description = or_null (up_description upload0),
                       isPublic = (up_isPublic upload0 = Some ''true''),
                       userId = user_id bob, folderId = None, uploadedAt = up_now upload0\<rparr>],
                  nextFileId := nextFileId st0 + 1\<rparr>,
               Redirect FilesUrl [FlashSuccess ''File uploaded successfully!''])"
    using upload_with_unresolvable_folder [OF u n, of song] e f by blast
  show ?thesis
    unfolding r using e f u k n
    by (simp add: st0_def upload0_def song_def bob_def or_null_def truthy_def)
qed

subsection \<open>The folder of a file belongs to its owner\<close>

lemma filed_with_owner_None: "folderId f = None \<Longrightarrow> filed_with_owner gs f"
  by (simp add: filed_with_owner_def)

lemma filed_with_owner_found:
  assumes "distinct (map folder_id gs)"
    and "findFirst (Obj [equals folder_id (Some kid), equals folder_userId (Some uid)]) gs = Some g"
    and "folderId f = Some kid" "userId f = uid"
  shows "filed_with_owner gs f"
proof -
  have g: "g \<in> set gs" "folder_id g = kid" "folder_userId g = uid"
    using findFirst_SomeD [OF assms(2), unfolded matches_folder_where] by simp_all
  have "find (\<lambda>x. folder_id x = kid) gs = Some g"
    using assms(1) g by (intro find_by_key [where key = folder_id]) simp_all
  then show ?thesis using assms(3,4) g by (simp add: filed_with_owner_def)
qed

lemma store_ok_console_error: "store_ok (console_error msg st) = store_ok st"
  by (simp add: store_ok_def keys_ok_def folder_refs_ok_def console_error_def)

lemma store_ok_filter:
  assumes "store_ok st" "files st1 = files st" "folders st1 = folders st" "nextFileId st1 = nextFileId st"
  shows "store_ok (st1\<lparr>files := filter P (files st)\<rparr>)"
  using assms by (simp add: store_ok_def keys_ok_def folder_refs_ok_def distinct_map_filter list_all_iff)

lemma store_ok_delete_file: "store_ok st \<Longrightarrow> store_ok (fst (delete_file st u n))"
proof (cases u)
  case None
  assume "store_ok st"
  then show ?thesis using None by (simp add: delete_file_def store_ok_console_error)
next
  case (Some P)
  assume ok: "store_ok st"
  show ?thesis
  proof (cases "findFirst (owned_where P n) (files st)")
    case None
    then show ?thesis using ok Some by (simp add: delete_file_def)
  next
    case found: (Some f)
    then have f: "f \<in> set (files st)" "file_id f = n" "userId f = user_id P"
      using findFirst_SomeD [OF found] by (simp_all add: matches_owned)
    obtain st1 where "delete_file st (Some P) (file_id f) =
        (st1\<lparr>files := filter (\<lambda>x. file_id x \<noteq> file_id f) (files st)\<rparr>, JsonSuccess)"
      and "files st1 = files st" "folders st1 = folders st" "nextFileId st1 = nextFileId st"
      using delete_file_owner [OF f(1,3)] by blast
    then show ?thesis using ok Some f(2) store_ok_filter [of st st1] by simp
  qed
qed

lemma list_all_mapI: "(\<And>x. x \<in> set xs \<Longrightarrow> P (g x)) \<Longrightarrow> list_all P (map g xs)"
  by (induction xs) auto

lemma store_ok_assign_update:
  assumes "store_ok st" "f \<in> set (files st)" "filed_with_owner (folders st) (f\<lparr>folderId := v\<rparr>)"
  shows "store_ok (fst (assign_update st n f v))"
proof -
  let ?upd = "\<lambda>r. if file_id r = file_id f then r\<lparr>folderId := v\<rparr> else r"
  have ids: "map file_id (map ?upd (files st)) = map file_id (files st)"
    by (induction "files st") auto
  have d: "distinct (map file_id (files st))"
    using assms(1) by (simp add: store_ok_def keys_ok_def)
  have same: "r = f" if "r \<in> set (files st)" "file_id r = file_id f" for r
    using d that assms(2) by (meson distinct_map inj_onD)
  have refs: "filed_with_owner (folders st) (?upd r)" if "r \<in> set (files st)" for r
  proof (cases "file_id r = file_id f")
    case True
    then show ?thesis using same [OF that] assms(3) by simp
  next
    case False
    then show ?thesis using assms(1) that by (simp add: store_ok_def folder_refs_ok_def list_all_iff)
  qed
  have lt: "file_id (?upd r) < nextFileId st" if "r \<in> set (files st)" for r
    using assms(1) that by (auto simp: store_ok_def keys_ok_def list_all_iff)
  have a: "list_all (filed_with_owner (folders st)) (map ?upd (files st))"
    using refs by (rule list_all_mapI)
  have b: "list_all (\<lambda>x. file_id x < nextFileId st) (map ?upd (files st))"
    using lt by (rule list_all_mapI)
  have c: "distinct (map file_id (map ?upd (files st)))"
    using d by (simp only: ids)
  have e: "distinct (map folder_id (folders st))"
    using assms(1) by (simp add: store_ok_def)
  have "store_ok (st\<lparr>files := map ?upd (files st)\<rparr>)"
    using a b c e by (simp add: store_ok_def keys_ok_def folder_refs_ok_def)
  then show ?thesis
    by (simp add: assign_update_present [OF assms(2)])
qed

lemma store_ok_post_assign_folder:
  assumes "store_ok st"
  shows "store_ok (fst (post_assign_folder st u n k))"
proof (cases u)
  case None
  then show ?thesis using assms by (simp add: post_assign_folder_def store_ok_console_error)
next
  case (Some P)
  show ?thesis
  proof (cases "findFirst (owned_where P n) (files st)")
    case None
    then show ?thesis using assms Some by (simp add: post_assign_folder_def)
  next
    case found: (Some f)
    have f: "f \<in> set (files st)" "userId f = user_id P"
      using findFirst_SomeD [OF found] by (simp_all add: matches_owned)
    have unfile: "store_ok (fst (assign_update st n f None))"
      using assms f(1) by (intro store_ok_assign_update) (simp_all add: filed_with_owner_None)
    show ?thesis
    proof (cases k)
      case None
      then show ?thesis
        using unfile Some found by (simp add: post_assign_folder_def truthy_def)
    next
      case key: (Some kid)
      show ?thesis
      proof (cases "findFirst (Obj [equals folder_id (Some kid),
                                    equals folder_userId (Some (user_id P))]) (folders st)")
        case None
        then show ?thesis
          using assms unfile Some found key by (simp add: post_assign_folder_def truthy_def)
      next
        case folder: (Some g)
        have "distinct (map folder_id (folders st))"
          using assms by (simp add: store_ok_def)
        then have "filed_with_owner (folders st) (f\<lparr>folderId := Some kid\<rparr>)"
          using folder f(2) by (intro filed_with_owner_found [where kid = kid and g = g]) simp_all
        then have "store_ok (fst (assign_update st n f (Some kid)))"
          using assms f(1) by (intro store_ok_assign_update)
        then show ?thesis
          using unfile Some found key folder by (simp add: post_assign_folder_def truthy_def)
      qed
    qed
  qed
qed

lemma store_ok_file_create:
  assumes "store_ok st" "filed_with_owner (folders st) row"
  shows "store_ok (file_create row now st)"
proof -
  have below: "\<forall>f\<in>set (files st). file_id f < nextFileId st"
    and d: "distinct (map file_id (files st))"
    and refs: "\<forall>f\<in>set (files st). filed_with_owner (folders st) f"
    and e: "distinct (map folder_id (folders st))"
    using assms(1) by (simp_all add: store_ok_def keys_ok_def folder_refs_ok_def list_all_iff)
  have fresh: "nextFileId st \<notin> file_id ` set (files st)"
    using below by auto
  have new: "filed_with_owner (folders st) (row\<lparr>file_id := nextFileId st, uploadedAt := now\<rparr>)"
    using assms(2) by (auto simp: filed_with_owner_def split: option.splits)
  have less: "\<forall>f\<in>set (files st). file_id f < nextFileId st + 1"
    using below by auto
  show ?thesis
    using d e refs fresh new less
    by (simp add: store_ok_def keys_ok_def folder_refs_ok_def file_create_def list_all_iff)
qed

lemma store_ok_post_upload:
  assumes "store_ok st"
  shows "store_ok (fst (post_upload st req))"
proof (cases "up_errors req = []")
  case False
  then show ?thesis using assms by (simp add: post_upload_def)
next
  case True
  show ?thesis
  proof (cases "up_file req")
    case None
    then show ?thesis using assms True by (simp add: post_upload_def)
  next
    case upl: (Some mf)
    show ?thesis
    proof (cases "up_user req")
      case None
      then show ?thesis
        using assms True upl by (simp add: post_upload_def store_ok_console_error)
    next
      case (Some P)
      let ?row = "\<lambda>v. \<lparr>file_id = 0, filename = mf_filename mf, originalName = mf_originalname mf,
                mimeType = mf_mimetype mf, file_size = mf_size mf, path = mf_path mf,
                description = or_null (up_description req),
                isPublic = (up_isPublic req = Some ''true''),
                userId = user_id P, folderId = v, uploadedAt = 0\<rparr>"
      have none: "store_ok (file_create (?row None) (up_now req) st)"
        using assms by (intro store_ok_file_create) (simp_all add: filed_with_owner_None)
      show ?thesis
      proof (cases "up_folderId req")
        case None
        then show ?thesis
          using none by (simp add: post_upload_ok [OF True upl Some])
      next
        case key: (Some kid)
        show ?thesis
        proof (cases "findFirst (Obj [equals folder_id (Some kid),
                                      equals folder_userId (Some (user_id P))]) (folders st)")
          case None
          then have "\<not> list_ex (\<lambda>g. folder_id g = kid \<and> folder_userId g = user_id P) (folders st)"
            by (simp add: findFirst_folder_None)
          then show ?thesis
            using none key by (simp add: post_upload_ok [OF True upl Some])
        next
          case folder: (Some g)
          have "distinct (map folder_id (folders st))"
            using assms by (simp add: store_ok_def)
          then have "filed_with_owner (folders st) (?row (Some kid))"
            using folder by (intro filed_with_owner_found [where kid = kid and g = g]) simp_all
          then have "store_ok (file_create (?row (Some kid)) (up_now req) st)"
            using assms by (intro store_ok_file_create)
          then show ?thesis
            using none key by (simp add: post_upload_ok [OF True upl Some])
        qed
      qed
    qed
  qed
qed

lemma store_ok_handle: "store_ok st \<Longrightarrow> store_ok (fst (handle st r))"
proof (cases r)
  case GetPublic
  assume "store_ok st"
  then show ?thesis using GetPublic by (simp add: get_public_def)
next
  case (GetIndex u)
  assume "store_ok st"
  then show ?thesis using GetIndex by (cases u) (simp_all add: get_index_def store_ok_console_error)
next
  case (PostUpload req)
  assume "store_ok st"
  then show ?thesis using PostUpload by (simp add: store_ok_post_upload)
next
  case (GetDownload u n)
  assume "store_ok st"
  then show ?thesis using GetDownload by (simp add: get_download_def split: option.split)
next
  case (DeleteFile u n)
  assume "store_ok st"
  then show ?thesis using DeleteFile by (simp add: store_ok_delete_file)
next
  case (GetInfo u n)
  assume "store_ok st"
  then show ?thesis using GetInfo by (simp add: get_info_def split: option.split)
next
  case (PostAssignFolder u n k)
  assume "store_ok st"
  then show ?thesis using PostAssignFolder by (simp add: store_ok_post_assign_folder)
qed

lemma store_ok_run: "store_ok st \<Longrightarrow> store_ok (run st rs)"
  by (induction rs arbitrary: st) (simp_all add: store_ok_handle)

text \<open>
  Claim C7. Start from a store in which file keys are unique, folder keys are unique and
  every filed file sits in a folder of its owner. After any sequence of requests to the
  routes, every file with a folder key names a folder of the table that belongs to the
  owner of the file, and no folder with that key belongs to anyone else.
\<close>

theorem filed_files_stay_with_owner:
  assumes "store_ok st"
  shows "\<forall>f\<in>set (files (run st rs)). \<forall>k. folderId f = Some k \<longrightarrow>
           (\<exists>g\<in>set (folders (run st rs)). folder_id g = k \<and> folder_userId g = userId f)
         \<and> (\<forall>g\<in>set (folders (run st rs)). folder_id g = k \<longrightarrow> folder_userId g = userId f)"
proof (intro ballI allI impI)
  fix f k
  assume f: "f \<in> set (files (run st rs))" and k: "folderId f = Some k"
  let ?gs = "folders (run st rs)"
  have ok: "store_ok (run st rs)" using assms by (rule store_ok_run)
  then have "filed_with_owner ?gs f"
    using f by (simp add: store_ok_def folder_refs_ok_def list_all_iff)
  then obtain g where g: "find (\<lambda>g. folder_id g = k) ?gs = Some g" "folder_userId g = userId f"
    using k by (auto simp: filed_with_owner_def split: option.splits)
  then have gin: "g \<in> set ?gs" "folder_id g = k"
    using find_SomeD [OF g(1)] by simp_all
  have d: "distinct (map folder_id ?gs)" using ok by (simp add: store_ok_def)
  have inj: "inj_on folder_id (set ?gs)" using d by (simp add: distinct_map)
  have uniq: "g' = g" if "g' \<in> set ?gs" "folder_id g' = k" for g'
  proof -
    have eq: "folder_id g' = folder_id g" using that(2) gin(2) by simp
    show ?thesis using inj eq that(1) gin(1) by (rule inj_onD)
  qed
  show "(\<exists>g\<in>set ?gs. folder_id g = k \<and> folder_userId g = userId f)
         \<and> (\<forall>g\<in>set ?gs. folder_id g = k \<longrightarrow> folder_userId g = userId f)"
    using g(2) gin uniq by blast
qed

lemma run_requests0:
  "run st0 requests0 =
     st0\<lparr>files := [f1\<lparr>folderId := Some ''g1''\<rparr>, f2, f3,
                 \<lparr>file_id = 4, filename = ''300-4-song.mp3'', originalName = ''song.mp3'',
                   mimeType = ''audio/mp3'', file_size = 9000, path = ''uploads/300-4-song.mp3'',
                   description = None, isPublic = False, userId = 2, folderId = None,
                   uploadedAt = 300\<rparr>],
          nextFileId := 5\<rparr>"
  by (simp add: requests0_def st0_def f1_def f2_def f3_def g1_def alice_def bob_def upload0_def song_def
      post_assign_folder_def post_upload_def assign_update_def file_update_def file_create_def
      findFirst_def owned_where_def equals_def truthy_def or_null_def)

theorem filed_files_stay_with_owner_witness:
  "store_ok st0
   \<and> f1\<lparr>folderId := Some ''g1''\<rparr> \<in> set (files (run st0 requests0))
   \<and> list_ex (\<lambda>g. folder_id g = ''g1'' \<and> folder_userId g = userId f1) (folders (run st0 requests0))
   \<and> list_all (\<lambda>g. folder_id g \<noteq> ''g1'' \<or> folder_userId g = userId f1) (folders (run st0 requests0))"
proof -
  have ok: "store_ok st0"
    by (simp add: store_ok_def keys_ok_def folder_refs_ok_def filed_with_owner_def
        st0_def f1_def f2_def f3_def g1_def)
  have m: "f1\<lparr>folderId := Some ''g1''\<rparr> \<in> set (files (run st0 requests0))"
    by (simp add: run_requests0)
  have k: "folderId (f1\<lparr>folderId := Some ''g1''\<rparr>) = Some ''g1''" by simp
  have u: "userId (f1\<lparr>folderId := Some ''g1''\<rparr>) = userId f1" by simp
  from filed_files_stay_with_owner [OF ok, of requests0] m k
  have "(\<exists>g\<in>set (folders (run st0 requests0)). folder_id g = ''g1''
            \<and> folder_userId g = userId (f1\<lparr>folderId := Some ''g1''\<rparr>))
      \<and> (\<forall>g\<in>set (folders (run st0 requests0)). folder_id g = ''g1''
            \<longrightarrow> folder_userId g = userId (f1\<lparr>folderId := Some ''g1''\<rparr>))"
    by blast
  then show ?thesis
    using ok m unfolding u list_ex_iff list_all_iff by blast
qed

section \<open>Uploads and listings\<close>

text \<open>
  Claim C10. The upload route leaves the file table as it is or appends one row; an
  appended row is owned by the user of the request and is public exactly when the
  \<^verbatim>\<open>isPublic\<close> field of the form is the string \<^verbatim>\<open>true\<close>. When the request passed
  validation, carries a file and has a user, the row is appended.
\<close>

theorem upload_owner_and_visibility:
  "(files (fst (post_upload st req)) = files st
      \<or> (\<exists>P row. up_user req = Some P
            \<and> files (fst (post_upload st req)) = files st @ [row]
            \<and> userId row = user_id P
            \<and> isPublic row = (up_isPublic req = Some ''true'')))
   \<and> (up_errors req = [] \<and> up_file req \<noteq> None \<and> up_user req = Some P \<longrightarrow>
         (\<exists>row. files (fst (post_upload st req)) = files st @ [row]
            \<and> userId row = user_id P
            \<and> isPublic row = (up_isPublic req = Some ''true'')))"
proof -
  have ok: "\<exists>row. files (fst (post_upload st req)) = files st @ [row]
              \<and> userId row = user_id Q
              \<and> isPublic row = (up_isPublic req = Some ''true'')"
    if "up_errors req = []" "up_file req = Some mf" "up_user req = Some Q" for mf Q
    by (simp add: post_upload_ok [OF that] file_create_def)
  have first: "files (fst (post_upload st req)) = files st
      \<or> (\<exists>P row. up_user req = Some P
            \<and> files (fst (post_upload st req)) = files st @ [row]
            \<and> userId row = user_id P
            \<and> isPublic row = (up_isPublic req = Some ''true''))"
  proof (cases "up_errors req = []")
    case False
    then show ?thesis by (simp add: post_upload_def)
  next
    case True
    show ?thesis
    proof (cases "up_file req")
      case None
      then show ?thesis using True by (simp add: post_upload_def)
    next
      case (Some mf)
      show ?thesis
      proof (cases "up_user req")
        case None
        then show ?thesis using True Some by (simp add: post_upload_def console_error_def)
      next
        case (Some Q)
        then show ?thesis using ok [OF True \<open>up_file req = Some mf\<close> Some] by blast
      qed
    qed
  qed
  have second: "up_errors req = [] \<and> up_file req \<noteq> None \<and> up_user req = Some P \<longrightarrow>
         (\<exists>row. files (fst (post_upload st req)) = files st @ [row]
            \<and> userId row = user_id P
            \<and> isPublic row = (up_isPublic req = Some ''true''))"
    using ok by blast
  from first second show ?thesis by (rule conjI)
qed

theorem upload_owner_and_visibility_witness:
  "up_errors upload0 = [] \<and> up_file upload0 \<noteq> None \<and> up_user upload0 = Some bob
   \<and> up_isPublic upload0 = Some ''True''
   \<and> (\<exists>row. files (fst (post_upload st0 upload0)) = files st0 @ [row]
          \<and> userId row = user_id bob \<and> \<not> isPublic row)
   \<and> (\<exists>row. files (fst (post_upload st0 (upload0\<lparr>up_isPublic := Some ''1''\<rparr>))) = files st0 @ [row]
          \<and> userId row = user_id bob \<and> \<not> isPublic row)
   \<and> (\<exists>row. files (fst (post_upload st0 (upload0\<lparr>up_isPublic := None\<rparr>))) = files st0 @ [row]
          \<and> userId row = user_id bob \<and> \<not> isPublic row)
   \<and> (\<exists>row. files (fst (post_upload st0 (upload0\<lparr>up_isPublic := Some ''true''\<rparr>))) = files st0 @ [row]
          \<and> userId row = user_id bob \<and> isPublic row)"
  using upload_owner_and_visibility [of st0 upload0 bob]
    upload_owner_and_visibility [of st0 "upload0\<lparr>up_isPublic := Some ''1''\<rparr>" bob]
    upload_owner_and_visibility [of st0 "upload0\<lparr>up_isPublic := None\<rparr>" bob]
    upload_owner_and_visibility [of st0 "upload0\<lparr>up_isPublic := Some ''true''\<rparr>" bob]
  by (simp add: upload0_def)

lemma sorted_desc_sort_key:
  "sorted_wrt (\<lambda>a b. uploadedAt b \<le> uploadedAt a) (sort_key (\<lambda>f. - uploadedAt f) xs)"
proof -
  have "sorted (map (\<lambda>f. - uploadedAt f) (sort_key (\<lambda>f. - uploadedAt f) xs))"
    by (rule sorted_sort_key)
  then show ?thesis by (simp add: sorted_map)
qed

text \<open>
  Claim C9. The public listing renders exactly the public files and the listing of a
  user renders exactly the files of that user (as multisets of rows, so nothing is
  dropped, cut off or repeated), each ordered by upload time, latest first.
\<close>

theorem listings_filtered_and_ordered:
  "(\<exists>xs. get_public st = (st, RenderPublic xs)
        \<and> mset xs = mset (filter isPublic (files st))
        \<and> sorted_wrt (\<lambda>a b. uploadedAt b \<le> uploadedAt a) xs)
   \<and> (\<exists>ys. get_index st (Some P) = (st, RenderIndex ys)
        \<and> mset ys = mset (filter (\<lambda>f. userId f = user_id P) (files st))
        \<and> sorted_wrt (\<lambda>a b. uploadedAt b \<le> uploadedAt a) ys)"
proof
  show "\<exists>xs. get_public st = (st, RenderPublic xs)
        \<and> mset xs = mset (filter isPublic (files st))
        \<and> sorted_wrt (\<lambda>a b. uploadedAt b \<le> uploadedAt a) xs"
    by (simp add: get_public_def findMany_def matches_single_field sorted_desc_sort_key)
  show "\<exists>ys. get_index st (Some P) = (st, RenderIndex ys)
        \<and> mset ys = mset (filter (\<lambda>f. userId f = user_id P) (files st))
        \<and> sorted_wrt (\<lambda>a b. uploadedAt b \<le> uploadedAt a) ys"
    by (simp add: get_index_def findMany_def matches_single_field sorted_desc_sort_key)
qed

lemma listing_example:
  "get_public st0 = (st0, RenderPublic [f2]) \<and> get_index st0 (Some alice) = (st0, RenderIndex [f2, f1])"
  by (simp add: get_public_def get_index_def findMany_def matches_single_field
      st0_def f1_def f2_def f3_def alice_def)

end
